theory Spec2Isabelle
  imports Complex_Main "HOL-Library.Word"
begin

section \<open>JavaScript strings\<close>

text \<open>
  A JavaScript string is a sequence of 16-bit code units. Literals of the source are
  written as Isabelle strings and injected with \<open>js\<close>.
\<close>

type_synonym jschar = "16 word"
type_synonym jsstring = "jschar list"

definition js :: "string \<Rightarrow> jsstring" where
  "js s = map of_char s"

definition NL :: jschar where
  "NL = 0x0A"

text \<open>
  White space in the sense of \<open>String.prototype.trim\<close> and of the regular expression
  class \<open>\s\<close>: the WhiteSpace and LineTerminator code points of ECMAScript.
\<close>

definition is_space :: "jschar \<Rightarrow> bool" where
  "is_space c =
     (c = 0x09 \<or> c = 0x0A \<or> c = 0x0B \<or> c = 0x0C \<or> c = 0x0D \<or> c = 0x20 \<or> c = 0xA0
      \<or> c = 0x1680 \<or> (0x2000 \<le> c \<and> c \<le> 0x200A) \<or> c = 0x2028 \<or> c = 0x2029
      \<or> c = 0x202F \<or> c = 0x205F \<or> c = 0x3000 \<or> c = 0xFEFF)"

text \<open>The class \<open>\d\<close>: the ten ASCII digits.\<close>

definition is_digit :: "jschar \<Rightarrow> bool" where
  "is_digit c = (0x30 \<le> c \<and> c \<le> 0x39)"

text \<open>
  The class \<open>\w\<close>: \<open>[A-Za-z0-9_]\<close>. The regular expression has the flag \<open>i\<close> but not
  \<open>u\<close>, so no code unit outside ASCII is added to the class.
\<close>

definition is_word :: "jschar \<Rightarrow> bool" where
  "is_word c =
     ((0x41 \<le> c \<and> c \<le> 0x5A) \<or> (0x61 \<le> c \<and> c \<le> 0x7A) \<or> is_digit c \<or> c = 0x5F)"

text \<open>The class \<open>[\d.]\<close>.\<close>

definition is_digit_or_dot :: "jschar \<Rightarrow> bool" where
  "is_digit_or_dot c = (is_digit c \<or> c = 0x2E)"

text \<open>
  A literal pattern character under the flag \<open>i\<close>: the input code unit and the
  pattern character are compared after canonicalisation. The pattern characters of the
  source are all ASCII, and canonicalisation never maps a code unit outside ASCII into
  ASCII, so upper-casing the ASCII letters is the whole comparison.
\<close>

definition ascii_upper :: "jschar \<Rightarrow> jschar" where
  "ascii_upper c = (if 0x61 \<le> c \<and> c \<le> 0x7A then c - 0x20 else c)"

definition lit_ci :: "jschar \<Rightarrow> jschar \<Rightarrow> bool" where
  "lit_ci a c = (ascii_upper c = ascii_upper a)"

text \<open>\<open>String.prototype.trim\<close>: white space is removed at both ends.\<close>

definition trim :: "jsstring \<Rightarrow> jsstring" where
  "trim s = rev (dropWhile is_space (rev (dropWhile is_space s)))"

text \<open>
  \<open>String.prototype.split\<close> at the line feed. The result is never empty: a string
  without line feed is the only segment, and a string that ends in a line feed has the
  empty string as its last segment.
\<close>

fun split_nl :: "jsstring \<Rightarrow> jsstring list" where
  "split_nl [] = [[]]"
| "split_nl (c # cs) =
     (if c = NL then [] # split_nl cs
      else (case split_nl cs of [] \<Rightarrow> [[c]] | l # ls \<Rightarrow> (c # l) # ls))"

section \<open>The regular expression of the telemetry line\<close>

text \<open>
  The source matches \<^verbatim>\<open>/Motor:\s*(\w+)\s+Speed:\s*([\d.]+)\s+Anomaly:\s*(\d+)%/i\<close>.
  Every quantified atom of it is a character class, so the pattern is a list of pieces:
  one character of a class, a greedy repetition of a class, or the boundary of a
  capture group. \<open>x+\<close> is \<open>x\<close> followed by \<open>x*\<close>.
\<close>

datatype piece = One "jschar \<Rightarrow> bool" | Many "jschar \<Rightarrow> bool" | Mark

text \<open>
  The backtracking matcher of ECMAScript at a fixed start position. A greedy repetition
  first tries to take one more character and to match the rest from there; only when
  that fails, it goes on with the pieces after it. The result is the list of inputs that
  remained at each group boundary, from which the groups are cut.
\<close>

fun rmatch :: "piece list \<Rightarrow> jsstring \<Rightarrow> jsstring list option" where
  "rmatch [] s = Some []"
| "rmatch (Mark # ps) s = map_option ((#) s) (rmatch ps s)"
| "rmatch (One c # ps) [] = None"
| "rmatch (One c # ps) (x # xs) = (if c x then rmatch ps xs else None)"
| "rmatch (Many c # ps) [] = rmatch ps []"
| "rmatch (Many c # ps) (x # xs) =
     (if c x then
        (case rmatch (Many c # ps) xs of
           Some r \<Rightarrow> Some r
         | None \<Rightarrow> rmatch ps (x # xs))
      else rmatch ps (x # xs))"

text \<open>
  The pattern is not anchored: the start positions are tried from the left, and the
  first one with a match wins.
\<close>

fun rsearch :: "piece list \<Rightarrow> jsstring \<Rightarrow> jsstring list option" where
  "rsearch ps [] = rmatch ps []"
| "rsearch ps (x # xs) =
     (case rmatch ps (x # xs) of
        Some r \<Rightarrow> Some r
      | None \<Rightarrow> rsearch ps xs)"

definition lit :: "string \<Rightarrow> piece list" where
  "lit s = map (\<lambda>a. One (lit_ci a)) (js s)"

definition telemetry_regex :: "piece list" where
  "telemetry_regex =
     lit ''Motor:'' @ [Many is_space, Mark, One is_word, Many is_word, Mark,
       One is_space, Many is_space] @
     lit ''Speed:'' @ [Many is_space, Mark, One is_digit_or_dot, Many is_digit_or_dot, Mark,
       One is_space, Many is_space] @
     lit ''Anomaly:'' @ [Many is_space, Mark, One is_digit, Many is_digit, Mark] @
     lit ''%''"

text \<open>The text of a group, from the inputs that remained at its two boundaries.\<close>

definition capture :: "jsstring \<Rightarrow> jsstring \<Rightarrow> jsstring" where
  "capture a b = take (length a - length b) a"

text \<open>\<open>line.match(regex)\<close>: the three groups of the leftmost match, or no match.\<close>

definition telemetry_match :: "jsstring \<Rightarrow> (jsstring \<times> jsstring \<times> jsstring) option" where
  "telemetry_match line =
     (case rsearch telemetry_regex line of
        Some [a1, b1, a2, b2, a3, b3] \<Rightarrow> Some (capture a1 b1, capture a2 b2, capture a3 b3)
      | _ \<Rightarrow> None)"

section \<open>Numbers\<close>

text \<open>
  JavaScript numbers are modelled as reals and \<open>NaN\<close> as \<open>None\<close>; the rounding of a
  decimal numeral to the nearest double is not modelled, so a numeral is compared and
  stored with the value that is written. Rounding is monotone and 0, 25 and 100 are
  doubles, so a numeral that passes a range check here passes it in the source.
\<close>

definition digits_val :: "jsstring \<Rightarrow> nat" where
  "digits_val ds = foldl (\<lambda>a d. 10 * a + unat (d - 0x30)) 0 ds"

text \<open>
  \<open>parseFloat\<close> reads, after leading white space, the longest prefix that is a decimal
  literal. It is only applied to the second group, a string of digits and dots, so the
  sign, the exponent and \<open>Infinity\<close> of the literal grammar cannot occur and are left
  out: the literal is \<open>digits\<close>, \<open>digits.\<close>, \<open>digits.digits\<close> or \<open>.digits\<close>.
\<close>

definition parseFloat :: "jsstring \<Rightarrow> real option" where
  "parseFloat s =
     (let t = dropWhile is_space s;
          ip = takeWhile is_digit t
      in case dropWhile is_digit t of
           [] \<Rightarrow> if ip = [] then None else Some (real (digits_val ip))
         | c # r \<Rightarrow>
             if c = 0x2E then
               (let fp = takeWhile is_digit r
                in if ip = [] \<and> fp = [] then None
                   else Some (real (digits_val ip) + real (digits_val fp) / 10 ^ length fp))
             else if ip = [] then None else Some (real (digits_val ip)))"

text \<open>
  \<open>parseInt(s, 10)\<close>: leading white space, an optional sign, then the longest prefix
  of decimal digits; \<open>NaN\<close> when there is no digit.
\<close>

definition parseInt :: "jsstring \<Rightarrow> int option" where
  "parseInt s =
     (let t = dropWhile is_space s;
          neg = (case t of [] \<Rightarrow> False | c # r \<Rightarrow> c = 0x2D);
          u = (case t of [] \<Rightarrow> [] | c # r \<Rightarrow> if c = 0x2D \<or> c = 0x2B then r else t);
          ds = takeWhile is_digit u
      in if ds = [] then None
         else Some (if neg then - int (digits_val ds) else int (digits_val ds)))"

section \<open>The telemetry parser\<close>

record MotorTelemetry =
  status :: jsstring
  speed :: real
  rpm :: real
  anomalyPercentage :: int
  anomalyDetected :: bool
  timestamp :: nat

text \<open>
  \<open>parseTelemetry\<close>. The reading of \<open>Date.now()\<close> is the parameter \<open>now\<close>. No step of
  the body throws, so the \<open>catch\<close> branch is never taken; \<open>null\<close> is \<open>None\<close>.
\<close>

definition parseTelemetry :: "nat \<Rightarrow> jsstring \<Rightarrow> MotorTelemetry option" where
  "parseTelemetry now message =
     (let line = trim message in
      case telemetry_match line of
        None \<Rightarrow> None
      | Some (g1, g2, g3) \<Rightarrow>
          if g1 \<notin> set [js ''Running'', js ''Stop'', js ''Error''] then None
          else
            (case parseFloat g2 of
               None \<Rightarrow> None
             | Some sp \<Rightarrow>
                 if sp < 0 \<or> sp > 25 then None
                 else
                   (case parseInt g3 of
                      None \<Rightarrow> None
                    | Some a \<Rightarrow>
                        if a < 0 \<or> a > 100 then None
                        else Some \<lparr>status = g1, speed = sp, rpm = (sp * 60) / (2 * pi),
                          anomalyPercentage = a, anomalyDetected = (a > 50),
                          timestamp = now\<rparr>)))"

section \<open>The streaming parser\<close>

record TelemetryStreamParser =
  buffer :: jsstring

definition new_parser :: TelemetryStreamParser where
  "new_parser = \<lparr>buffer = []\<rparr>"

datatype feed_data = Str jsstring | Bytes "8 word list"

text \<open>
  The loop of \<open>feed\<close> over the complete lines, with its index and the frames pushed so
  far. \<open>clock i\<close> is the reading of \<open>Date.now()\<close> while line \<open>i\<close> is parsed.
\<close>

function feed_loop ::
  "(nat \<Rightarrow> nat) \<Rightarrow> jsstring list \<Rightarrow> nat \<Rightarrow> MotorTelemetry list \<Rightarrow> MotorTelemetry list" where
  "feed_loop clock lines i frames =
     (if i < length lines - 1 then
        (case parseTelemetry (clock i) (lines ! i) of
           Some telemetry \<Rightarrow> feed_loop clock lines (i + 1) (frames @ [telemetry])
         | None \<Rightarrow> feed_loop clock lines (i + 1) frames)
      else frames)"
  by pat_completeness auto
termination
  by (relation "measure (\<lambda>(clock, lines, i, frames). length lines - 1 - i)") auto

declare feed_loop.simps [simp del]

text \<open>
  \<open>feed\<close>: the parser before the call and the data, to the frames returned and the
  parser after the call. \<open>decode\<close> stands for \<open>new TextDecoder().decode\<close> of the platform.
\<close>

definition feed ::
  "(8 word list \<Rightarrow> jsstring) \<Rightarrow> (nat \<Rightarrow> nat) \<Rightarrow> TelemetryStreamParser \<Rightarrow> feed_data \<Rightarrow>
     MotorTelemetry list \<times> TelemetryStreamParser" where
  "feed decode clock p data =
     (let str = (case data of Str s \<Rightarrow> s | Bytes b \<Rightarrow> decode b);
          buf = buffer p @ str;
          lines = split_nl buf;
          p' = p\<lparr>buffer := last lines\<rparr>
      in (feed_loop clock lines 0 [], p'))"

definition reset :: "TelemetryStreamParser \<Rightarrow> TelemetryStreamParser" where
  "reset p = p\<lparr>buffer := []\<rparr>"

definition getBuffer :: "TelemetryStreamParser \<Rightarrow> jsstring" where
  "getBuffer p = buffer p"

text \<open>
  A sequence of \<open>feed\<close> calls with string chunks, each with its own clock; the frames of
  the calls are concatenated.
\<close>

fun feed_chunks ::
  "(8 word list \<Rightarrow> jsstring) \<Rightarrow> TelemetryStreamParser \<Rightarrow> ((nat \<Rightarrow> nat) \<times> jsstring) list \<Rightarrow>
     MotorTelemetry list \<times> TelemetryStreamParser" where
  "feed_chunks decode p [] = ([], p)"
| "feed_chunks decode p ((clock, chunk) # rest) =
     (let (frames, p') = feed decode clock p (Str chunk);
          (frames', p'') = feed_chunks decode p' rest
      in (frames @ frames', p''))"

text \<open>The fields of a record other than its time stamp.\<close>

definition telemetry_fields :: "MotorTelemetry \<Rightarrow> jsstring \<times> real \<times> real \<times> int \<times> bool" where
  "telemetry_fields t =
     (status t, speed t, rpm t, anomalyPercentage t, anomalyDetected t)"

section \<open>Sending commands\<close>

text \<open>
  The part of the state of the \<open>FanController\<close> component that \<open>sendCommand\<close> reads or
  writes. \<open>characteristicRef\<close> is \<open>None\<close> for \<open>null\<close>. The fields of a debug message
  have the prefix \<open>dm\<close>, since \<open>id\<close> and \<open>timestamp\<close> are taken.
\<close>

datatype message_type = sent | received

record DebugMessage =
  dm_id :: nat
  dm_timestamp :: nat
  dm_type :: message_type
  dm_data :: jsstring
  dm_raw :: "8 word list option"

record 'c FanController =
  characteristicRef :: "'c option"
  connected :: bool
  error :: "jsstring option"
  debugMessages :: "DebugMessage list"
  debugMessageIdRef :: nat

text \<open>
  \<open>addDebugMessage\<close>: the message gets the next id (the string \<open>msg-n\<close> of the source is
  represented by \<open>n\<close>), and the last 99 messages are kept in front of it.
\<close>

definition addDebugMessage ::
  "nat \<Rightarrow> 'c FanController \<Rightarrow> message_type \<Rightarrow> jsstring \<Rightarrow> 8 word list option \<Rightarrow> 'c FanController" where
  "addDebugMessage now st type data raw =
     (let message = \<lparr>dm_id = debugMessageIdRef st, dm_timestamp = now, dm_type = type,
            dm_data = data, dm_raw = raw\<rparr>;
          prev = debugMessages st
      in st\<lparr>debugMessageIdRef := debugMessageIdRef st + 1,
            debugMessages := drop (length prev - 99) prev @ [message]\<rparr>)"

text \<open>
  What \<open>writeValue\<close> of the transport answers: the promise resolves, or it rejects with a
  thrown value, which is an \<open>Error\<close> object with its message or something else.
\<close>

datatype thrown = ErrorObject jsstring | OtherValue

datatype write_result = Resolved | Rejected thrown

text \<open>
  \<open>sendCommand\<close>. \<open>encode\<close> stands for \<open>new TextEncoder().encode\<close> and \<open>writeValue\<close> for the
  method of the characteristic, both of the platform. The result is the state after the
  call and the byte arrays that were handed to \<open>writeValue\<close>, in order.
\<close>

definition sendCommand ::
  "(jsstring \<Rightarrow> 8 word list) \<Rightarrow> ('c \<Rightarrow> 8 word list \<Rightarrow> write_result) \<Rightarrow> nat \<Rightarrow>
     'c FanController \<Rightarrow> jsstring \<Rightarrow> 'c FanController \<times> 8 word list list" where
  "sendCommand encode writeValue now st command =
     (case characteristicRef st of
        None \<Rightarrow> (st\<lparr>error := Some (js ''Not connected to device'')\<rparr>, [])
      | Some characteristic \<Rightarrow>
          if \<not> connected st then (st\<lparr>error := Some (js ''Not connected to device'')\<rparr>, [])
          else
            (let data = encode (command @ [NL]);
                 st1 = addDebugMessage now st sent command None
             in case writeValue characteristic data of
                  Resolved \<Rightarrow> (st1, [data])
                | Rejected err \<Rightarrow>
                    (st1\<lparr>error := Some (case err of
                         ErrorObject msg \<Rightarrow> msg
                       | OtherValue \<Rightarrow> js ''Failed to send command'')\<rparr>, [data])))"

section \<open>Lines in the wire format\<close>

text \<open>
  The parts of a line as the pattern reads it: three labels, the gaps of white space and
  the three tokens. \<open>render\<close> puts them together and appends the percent sign.
\<close>

record line_parts =
  motor_label :: jsstring
  gap0 :: jsstring
  status_tok :: jsstring
  gap1 :: jsstring
  speed_label :: jsstring
  gap2 :: jsstring
  speed_tok :: jsstring
  gap3 :: jsstring
  anomaly_label :: jsstring
  gap4 :: jsstring
  percent_tok :: jsstring

definition render :: "line_parts \<Rightarrow> jsstring" where
  "render p =
     motor_label p @ gap0 p @ status_tok p @ gap1 p @ speed_label p @ gap2 p @ speed_tok p @
     gap3 p @ anomaly_label p @ gap4 p @ percent_tok p @ js ''%''"

text \<open>
  The labels are \<open>Motor:\<close>, \<open>Speed:\<close> and \<open>Anomaly:\<close> in any letter case; the gaps are
  white space, those before \<open>Speed:\<close> and \<open>Anomaly:\<close> not empty; the status token is a
  word, the speed token consists of digits and dots, the percent token of digits.
\<close>

definition well_formed :: "line_parts \<Rightarrow> bool" where
  "well_formed p =
     (list_all2 lit_ci (js ''Motor:'') (motor_label p) \<and>
      list_all is_space (gap0 p) \<and>
      status_tok p \<noteq> [] \<and> list_all is_word (status_tok p) \<and>
      gap1 p \<noteq> [] \<and> list_all is_space (gap1 p) \<and>
      list_all2 lit_ci (js ''Speed:'') (speed_label p) \<and>
      list_all is_space (gap2 p) \<and>
      speed_tok p \<noteq> [] \<and> list_all is_digit_or_dot (speed_tok p) \<and>
      gap3 p \<noteq> [] \<and> list_all is_space (gap3 p) \<and>
      list_all2 lit_ci (js ''Anomaly:'') (anomaly_label p) \<and>
      list_all is_space (gap4 p) \<and>
      percent_tok p \<noteq> [] \<and> list_all is_digit (percent_tok p))"

text \<open>The record that \<open>parseTelemetry\<close> builds from three valid tokens.\<close>

definition record_of :: "nat \<Rightarrow> jsstring \<Rightarrow> real \<Rightarrow> int \<Rightarrow> MotorTelemetry" where
  "record_of now st sp a =
     \<lparr>status = st, speed = sp, rpm = (sp * 60) / (2 * pi), anomalyPercentage = a,
      anomalyDetected = (a > 50), timestamp = now\<rparr>"

text \<open>
  No match of the pattern starts inside \<open>pre\<close> when \<open>pre\<close> is followed by \<open>rest\<close>.
\<close>

fun no_match_before :: "piece list \<Rightarrow> jsstring \<Rightarrow> jsstring \<Rightarrow> bool" where
  "no_match_before ps [] rest = True"
| "no_match_before ps (x # xs) rest =
     (rmatch ps (x # xs @ rest) = None \<and> no_match_before ps xs rest)"

text \<open>
  The fields of the record of a complete line, as a list: empty when the line is dropped.
\<close>

definition line_fields :: "jsstring \<Rightarrow> (jsstring \<times> real \<times> real \<times> int \<times> bool) list" where
  "line_fields l = (case parseTelemetry 0 l of None \<Rightarrow> [] | Some t \<Rightarrow> [telemetry_fields t])"

text \<open>The rejection set: four complete lines, each invalid in its own way.\<close>

definition rejection_set :: "jsstring list" where
  "rejection_set =
     [js ''Motor: Walking Speed: 1.0 Anomaly: 0%'',
      js ''Motor: Running Speed: 30.0 Anomaly: 0%'',
      js ''Motor: Running Speed: 1.0 Anomaly: 150%'',
      js ''garbage'']"

text \<open>The frames that a complete line contributes to the result of \<open>feed\<close>.\<close>

definition frames_of_line :: "nat \<Rightarrow> jsstring \<Rightarrow> MotorTelemetry list" where
  "frames_of_line now l = (case parseTelemetry now l of None \<Rightarrow> [] | Some t \<Rightarrow> [t])"

text \<open>A piece that cannot consume the percent sign.\<close>

fun rejects_pct :: "piece \<Rightarrow> bool" where
  "rejects_pct (One c) = (\<not> c 0x25)"
| "rejects_pct (Many c) = (\<not> c 0x25)"
| "rejects_pct Mark = True"

section \<open>Character classes\<close>

lemma space_not_word: "is_space x \<Longrightarrow> \<not> is_word x"
  by (auto simp: is_space_def is_word_def is_digit_def word_le_nat_alt)

lemma space_not_dd: "is_space x \<Longrightarrow> \<not> is_digit_or_dot x"
  by (auto simp: is_space_def is_digit_or_dot_def is_digit_def word_le_nat_alt)

lemma space_not_digit: "is_space x \<Longrightarrow> \<not> is_digit x"
  by (auto simp: is_space_def is_digit_def word_le_nat_alt)

lemma ascii_upper_cases:
  "ascii_upper x = y \<Longrightarrow> x = y \<or> (x = y + 0x20 \<and> 0x61 \<le> x \<and> x \<le> 0x7A)"
  by (auto simp: ascii_upper_def split: if_splits)

lemma lit_ci_pct: "lit_ci 0x25 x = (x = 0x25)"
  using ascii_upper_cases[of x "0x25"]
  by (auto simp: lit_ci_def ascii_upper_def)

lemma lit_S_not_space: "lit_ci 0x53 x \<Longrightarrow> \<not> is_space x"
  using ascii_upper_cases[of x "0x53"]
  by (auto simp: lit_ci_def ascii_upper_def is_space_def)

lemma lit_A_not_space: "lit_ci 0x41 x \<Longrightarrow> \<not> is_space x"
  using ascii_upper_cases[of x "0x41"]
  by (auto simp: lit_ci_def ascii_upper_def is_space_def)

lemma lit_M_not_space: "lit_ci 0x4D x \<Longrightarrow> \<not> is_space x"
  using ascii_upper_cases[of x "0x4D"]
  by (auto simp: lit_ci_def ascii_upper_def is_space_def)

lemma pct_not_digit: "\<not> is_digit 0x25"
  by (simp add: is_digit_def)

lemma pct_not_space: "\<not> is_space 0x25"
  by (simp add: is_space_def)

section \<open>The matcher on well-formed lines\<close>

lemma rmatch_ones:
  "list_all2 (\<lambda>c x. c x) cs m \<Longrightarrow> rmatch (map One cs @ ps) (m @ rest) = rmatch ps rest"
  by (induction cs m rule: list_all2_induct) auto

lemma rmatch_lit:
  "list_all2 lit_ci (js k) m \<Longrightarrow> rmatch (lit k @ ps) (m @ rest) = rmatch ps rest"
  using rmatch_ones[of "map lit_ci (js k)" m ps rest]
  by (simp add: lit_def list_all2_map1 comp_def)

lemma rmatch_many:
  assumes "list_all c run" and "rest = [] \<or> \<not> c (hd rest)" and "rmatch ps rest = Some r"
  shows "rmatch (Many c # ps) (run @ rest) = Some r"
  using assms
proof (induction run)
  case Nil
  then show ?case by (cases rest) auto
next
  case (Cons x run)
  then show ?case by simp
qed

lemma rmatch_plus:
  assumes "run \<noteq> []" and "list_all c run" and "rest = [] \<or> \<not> c (hd rest)"
    and "rmatch ps rest = Some r"
  shows "rmatch (One c # Many c # ps) (run @ rest) = Some r"
proof (cases run)
  case Nil
  with assms show ?thesis by simp
next
  case (Cons x xs)
  with assms have "rmatch (Many c # ps) (xs @ rest) = Some r"
    by (intro rmatch_many) auto
  with Cons assms show ?thesis by simp
qed

lemma rsearch_Some: "rmatch ps s = Some r \<Longrightarrow> rsearch ps s = Some r"
  by (cases s) auto

lemma rsearch_skip:
  "no_match_before ps pre rest \<Longrightarrow> rsearch ps (pre @ rest) = rsearch ps rest"
  by (induction pre) auto


lemma hd_class: "xs \<noteq> [] \<Longrightarrow> list_all c xs \<Longrightarrow> c (hd (xs @ ys))"
  by (cases xs) auto

lemma label_hd: "list_all2 lit_ci (a # k) m \<Longrightarrow> lit_ci a (hd (m @ ys))"
  by (cases m) auto

lemma js_Cons: "js (c # cs) = of_char c # js cs"
  by (simp add: js_def)

lemma rmatch_well_formed:
  fixes p :: line_parts and suf :: jsstring
  assumes wf: "well_formed p"
  defines "r3 \<equiv> js ''%'' @ suf"
  defines "r2 \<equiv> gap3 p @ anomaly_label p @ gap4 p @ percent_tok p @ r3"
  defines "r1 \<equiv> gap1 p @ speed_label p @ gap2 p @ speed_tok p @ r2"
  shows "rmatch telemetry_regex (render p @ suf) =
    Some [status_tok p @ r1, r1, speed_tok p @ r2, r2, percent_tok p @ r3, r3]"
proof -
  let ?t3 = "[Mark] @ lit ''%''"
  let ?t2 = "[Mark, One is_space, Many is_space] @ lit ''Anomaly:'' @
    [Many is_space, Mark, One is_digit, Many is_digit] @ ?t3"
  let ?t1 = "[Mark, One is_space, Many is_space] @ lit ''Speed:'' @
    [Many is_space, Mark, One is_digit_or_dot, Many is_digit_or_dot] @ ?t2"
  have m3: "rmatch ?t3 r3 = Some [r3]"
    by (simp add: r3_def lit_def js_def lit_ci_def)
  have h3: "\<not> is_digit (hd r3)"
    by (simp add: r3_def js_def pct_not_digit)
  have "rmatch (One is_digit # Many is_digit # ?t3) (percent_tok p @ r3) = Some [r3]"
    using wf h3 m3 by (intro rmatch_plus[where c=is_digit]) (auto simp: well_formed_def)
  then have m3a: "rmatch (Mark # One is_digit # Many is_digit # ?t3) (percent_tok p @ r3) =
      Some [percent_tok p @ r3, r3]"
    by simp
  have "is_digit (hd (percent_tok p @ r3))"
    using wf by (intro hd_class[where c=is_digit]) (auto simp: well_formed_def)
  then have "\<not> is_space (hd (percent_tok p @ r3))"
    using space_not_digit by blast
  then have m3b: "rmatch (Many is_space # Mark # One is_digit # Many is_digit # ?t3)
      (gap4 p @ percent_tok p @ r3) = Some [percent_tok p @ r3, r3]"
    using wf m3a by (intro rmatch_many[where c=is_space]) (auto simp: well_formed_def)
  have "rmatch (lit ''Anomaly:'' @ Many is_space # Mark # One is_digit # Many is_digit # ?t3)
      (anomaly_label p @ gap4 p @ percent_tok p @ r3) = Some [percent_tok p @ r3, r3]"
    using wf m3b by (simp add: rmatch_lit well_formed_def)
  moreover have "\<not> is_space (hd (anomaly_label p @ gap4 p @ percent_tok p @ r3))"
    using wf label_hd[of "0x41" "js ''nomaly:''" "anomaly_label p"] lit_A_not_space
    by (simp add: well_formed_def js_Cons)
  ultimately have "rmatch (One is_space # Many is_space # lit ''Anomaly:'' @
      Many is_space # Mark # One is_digit # Many is_digit # ?t3) r2 = Some [percent_tok p @ r3, r3]"
    unfolding r2_def using wf by (intro rmatch_plus[where c=is_space]) (auto simp: well_formed_def)
  then have m2: "rmatch ?t2 r2 = Some [r2, percent_tok p @ r3, r3]"
    by simp
  have "is_space (hd r2)"
    unfolding r2_def using wf by (intro hd_class[where c=is_space]) (auto simp: well_formed_def)
  then have h2: "\<not> is_digit_or_dot (hd r2)"
    using space_not_dd by blast
  have "rmatch (One is_digit_or_dot # Many is_digit_or_dot # ?t2) (speed_tok p @ r2) =
      Some [r2, percent_tok p @ r3, r3]"
    using wf h2 m2 by (intro rmatch_plus[where c=is_digit_or_dot]) (auto simp: well_formed_def)
  then have m2a: "rmatch (Mark # One is_digit_or_dot # Many is_digit_or_dot # ?t2) (speed_tok p @ r2) =
      Some [speed_tok p @ r2, r2, percent_tok p @ r3, r3]"
    by simp
  have "is_digit_or_dot (hd (speed_tok p @ r2))"
    using wf by (intro hd_class[where c=is_digit_or_dot]) (auto simp: well_formed_def)
  then have "\<not> is_space (hd (speed_tok p @ r2))"
    using space_not_dd by blast
  then have m2b: "rmatch (Many is_space # Mark # One is_digit_or_dot # Many is_digit_or_dot # ?t2)
      (gap2 p @ speed_tok p @ r2) = Some [speed_tok p @ r2, r2, percent_tok p @ r3, r3]"
    using wf m2a by (intro rmatch_many[where c=is_space]) (auto simp: well_formed_def)
  have "rmatch (lit ''Speed:'' @ Many is_space # Mark # One is_digit_or_dot # Many is_digit_or_dot # ?t2)
      (speed_label p @ gap2 p @ speed_tok p @ r2) = Some [speed_tok p @ r2, r2, percent_tok p @ r3, r3]"
    using wf m2b by (simp add: rmatch_lit well_formed_def)
  moreover have "\<not> is_space (hd (speed_label p @ gap2 p @ speed_tok p @ r2))"
    using wf label_hd[of "0x53" "js ''peed:''" "speed_label p"] lit_S_not_space
    by (simp add: well_formed_def js_Cons)
  ultimately have "rmatch (One is_space # Many is_space # lit ''Speed:'' @
      Many is_space # Mark # One is_digit_or_dot # Many is_digit_or_dot # ?t2) r1 =
      Some [speed_tok p @ r2, r2, percent_tok p @ r3, r3]"
    unfolding r1_def using wf by (intro rmatch_plus[where c=is_space]) (auto simp: well_formed_def)
  then have m1: "rmatch ?t1 r1 = Some [r1, speed_tok p @ r2, r2, percent_tok p @ r3, r3]"
    by simp
  have "is_space (hd r1)"
    unfolding r1_def using wf by (intro hd_class[where c=is_space]) (auto simp: well_formed_def)
  then have h1: "\<not> is_word (hd r1)"
    using space_not_word by blast
  have "rmatch (One is_word # Many is_word # ?t1) (status_tok p @ r1) =
      Some [r1, speed_tok p @ r2, r2, percent_tok p @ r3, r3]"
    using wf h1 m1 by (intro rmatch_plus[where c=is_word]) (auto simp: well_formed_def)
  then have m1a: "rmatch (Mark # One is_word # Many is_word # ?t1) (status_tok p @ r1) =
      Some [status_tok p @ r1, r1, speed_tok p @ r2, r2, percent_tok p @ r3, r3]"
    by simp
  have "is_word (hd (status_tok p @ r1))"
    using wf by (intro hd_class[where c=is_word]) (auto simp: well_formed_def)
  then have "\<not> is_space (hd (status_tok p @ r1))"
    using space_not_word by blast
  then have m1b: "rmatch (Many is_space # Mark # One is_word # Many is_word # ?t1)
      (gap0 p @ status_tok p @ r1) =
      Some [status_tok p @ r1, r1, speed_tok p @ r2, r2, percent_tok p @ r3, r3]"
    using wf m1a by (intro rmatch_many[where c=is_space]) (auto simp: well_formed_def)
  have "rmatch (lit ''Motor:'' @ Many is_space # Mark # One is_word # Many is_word # ?t1)
      (motor_label p @ gap0 p @ status_tok p @ r1) =
      Some [status_tok p @ r1, r1, speed_tok p @ r2, r2, percent_tok p @ r3, r3]"
    using wf m1b by (simp add: rmatch_lit well_formed_def)
  then show ?thesis
    by (simp add: telemetry_regex_def render_def r1_def r2_def r3_def)
qed

lemma capture_append: "capture (a @ r) r = a"
  by (simp add: capture_def)

lemma telemetry_match_well_formed:
  assumes "well_formed p" and "no_match_before telemetry_regex pre (render p @ suf)"
  shows "telemetry_match (pre @ render p @ suf) = Some (status_tok p, speed_tok p, percent_tok p)"
proof -
  have "rsearch telemetry_regex (pre @ render p @ suf) = rsearch telemetry_regex (render p @ suf)"
    using assms(2) by (rule rsearch_skip)
  also have "\<dots> = rmatch telemetry_regex (render p @ suf)"
    using rmatch_well_formed[OF assms(1), of suf] by (simp add: rsearch_Some)
  finally show ?thesis
    using rmatch_well_formed[OF assms(1), of suf]
    by (simp add: telemetry_match_def capture_append)
qed

lemma dropWhile_space_mid:
  "mid \<noteq> [] \<Longrightarrow> \<not> is_space (hd mid) \<Longrightarrow>
     dropWhile is_space (pre @ mid @ suf) = dropWhile is_space pre @ mid @ suf"
  by (cases mid) (auto simp: dropWhile_append)

lemma trim_mid:
  assumes "mid \<noteq> []" and "\<not> is_space (hd mid)" and "\<not> is_space (last mid)"
  shows "trim (pre @ mid @ suf) =
    dropWhile is_space pre @ mid @ rev (dropWhile is_space (rev suf))"
proof -
  have "dropWhile is_space (rev suf @ rev mid @ rev (dropWhile is_space pre)) =
      dropWhile is_space (rev suf) @ rev mid @ rev (dropWhile is_space pre)"
    using assms by (intro dropWhile_space_mid) (auto simp: hd_rev)
  then show ?thesis
    using assms by (simp add: trim_def dropWhile_space_mid)
qed

lemma render_ends:
  assumes "well_formed p"
  shows "render p \<noteq> []" and "\<not> is_space (hd (render p))" and "\<not> is_space (last (render p))"
proof -
  show "render p \<noteq> []" by (simp add: render_def js_def)
  show "\<not> is_space (hd (render p))"
    using assms label_hd[of "0x4D" "js ''otor:''" "motor_label p"] lit_M_not_space
    by (simp add: well_formed_def js_Cons render_def)
  show "\<not> is_space (last (render p))"
    by (simp add: render_def js_def pct_not_space)
qed

text \<open>
  Only the last piece of the pattern takes a percent sign, so whether the pattern matches at
  a position does not depend on the input behind the first percent sign.
\<close>

lemma rmatch_tail_core:
  assumes "list_all rejects_pct qs" and "0x25 \<notin> set a"
  shows "(rmatch (qs @ [One (lit_ci 0x25)]) (a @ 0x25 # b) = None) =
         (rmatch (qs @ [One (lit_ci 0x25)]) (a @ 0x25 # b') = None)"
  using assms
proof (induction qs arbitrary: a)
  case Nil
  then show ?case by (cases a) (auto simp: lit_ci_pct)
next
  case (Cons q qs)
  have after: "(rmatch (qs @ [One (lit_ci 0x25)]) (u @ 0x25 # b) = None) =
      (rmatch (qs @ [One (lit_ci 0x25)]) (u @ 0x25 # b') = None)" if "0x25 \<notin> set u" for u
    using Cons.IH[of u] Cons.prems(1) that by simp
  show ?case
  proof (cases q)
    case (One c)
    with Cons.prems after show ?thesis by (cases a) auto
  next
    case Mark
    with Cons.prems after show ?thesis by simp
  next
    case (Many c)
    have "(rmatch (Many c # qs @ [One (lit_ci 0x25)]) (u @ 0x25 # b) = None) =
        (rmatch (Many c # qs @ [One (lit_ci 0x25)]) (u @ 0x25 # b') = None)"
      if "0x25 \<notin> set u" for u
      using that
    proof (induction u)
      case Nil
      with Cons.prems(1) Many after[of "[]"] show ?case by simp
    next
      case (Cons x xs)
      with after[of "x # xs"] show ?case by (auto split: option.splits)
    qed
    with Cons.prems(2) Many show ?thesis by simp
  qed
qed

lemma telemetry_regex_split:
  "\<exists>qs. telemetry_regex = qs @ [One (lit_ci 0x25)] \<and> list_all rejects_pct qs"
proof -
  show ?thesis
    by (rule exI[of _ "butlast telemetry_regex"])
      (simp add: telemetry_regex_def lit_def js_def lit_ci_def ascii_upper_def is_space_def
        is_word_def is_digit_def is_digit_or_dot_def)
qed

lemma rmatch_tail:
  assumes "0x25 \<in> set t"
  shows "(rmatch telemetry_regex (t @ b) = None) = (rmatch telemetry_regex (t @ b') = None)"
proof -
  from assms obtain a c where t: "t = a @ 0x25 # c" and a: "0x25 \<notin> set a"
    by (auto dest: split_list_first)
  obtain qs where qs: "telemetry_regex = qs @ [One (lit_ci 0x25)]" "list_all rejects_pct qs"
    using telemetry_regex_split by blast
  show ?thesis
    using rmatch_tail_core[OF qs(2) a, of "c @ b" "c @ b'"] by (simp add: t qs(1))
qed

lemma no_match_before_dropWhile:
  "no_match_before ps pre rest \<Longrightarrow> no_match_before ps (dropWhile P pre) rest"
  by (induction pre) auto

lemma no_match_before_tail:
  assumes "0x25 \<in> set t" and "no_match_before telemetry_regex pre (t @ b)"
  shows "no_match_before telemetry_regex pre (t @ b')"
  using assms(2)
proof (induction pre)
  case Nil
  then show ?case by simp
next
  case (Cons x xs)
  have "(rmatch telemetry_regex ((x # xs @ t) @ b) = None) =
        (rmatch telemetry_regex ((x # xs @ t) @ b') = None)"
    using assms(1) by (intro rmatch_tail) simp
  with Cons show ?case by simp
qed

lemma pct_in_render: "0x25 \<in> set (render p)"
  by (simp add: render_def js_def)

lemma parseTelemetry_well_formed:
  assumes wf: "well_formed p"
    and nm: "no_match_before telemetry_regex pre (render p @ suf)"
    and sp: "parseFloat (speed_tok p) = Some sp" "0 \<le> sp" "sp \<le> 25"
    and a: "parseInt (percent_tok p) = Some a" "0 \<le> a" "a \<le> 100"
  shows "parseTelemetry now (pre @ render p @ suf) =
    (if status_tok p \<in> {js ''Running'', js ''Stop'', js ''Error''}
     then Some (record_of now (status_tok p) sp a) else None)"
proof -
  let ?pre = "dropWhile is_space pre" and ?suf = "rev (dropWhile is_space (rev suf))"
  have t: "trim (pre @ render p @ suf) = ?pre @ render p @ ?suf"
    using render_ends[OF wf] by (rule trim_mid)
  have "no_match_before telemetry_regex ?pre (render p @ suf)"
    using nm by (rule no_match_before_dropWhile)
  then have "no_match_before telemetry_regex ?pre (render p @ ?suf)"
    using pct_in_render by (rule no_match_before_tail[rotated])
  then have "telemetry_match (?pre @ render p @ ?suf) =
      Some (status_tok p, speed_tok p, percent_tok p)"
    using wf by (intro telemetry_match_well_formed)
  then show ?thesis
    using sp a by (simp add: parseTelemetry_def t record_of_def)
qed

lemma digit_not_sign: "is_digit x \<Longrightarrow> x \<noteq> 0x2D \<and> x \<noteq> 0x2B"
  by (auto simp: is_digit_def)

lemma parseInt_digits:
  assumes "tok \<noteq> []" and "list_all is_digit tok"
  shows "parseInt tok = Some (int (digits_val tok))"
proof -
  obtain x xs where tok: "tok = x # xs" using assms(1) by (cases tok) auto
  with assms(2) have x: "is_digit x" by simp
  have tw: "takeWhile is_digit tok = tok"
    using assms(2) by (simp add: list_all_iff)
  have "dropWhile is_space tok = tok"
    using x space_not_digit tok by auto
  then show ?thesis
    using digit_not_sign[OF x] tw assms(1) tok
    by (simp add: parseInt_def Let_def)
qed

lemma parseFloat_nonneg: "parseFloat s = Some v \<Longrightarrow> 0 \<le> v"
  by (auto simp: parseFloat_def Let_def split: list.splits if_splits)

section \<open>Splitting into lines and the loop of \<open>feed\<close>\<close>

lemma split_nl_nonempty: "split_nl s \<noteq> []"
  by (induction s) (auto split: list.splits)

lemma split_nl_append:
  "split_nl (a @ b) = butlast (split_nl a) @ split_nl (last (split_nl a) @ b)"
proof (induction a)
  case Nil
  then show ?case by simp
next
  case (Cons c a)
  show ?case
  proof (cases "c = NL")
    case True
    with Cons split_nl_nonempty[of a] show ?thesis by simp
  next
    case False
    obtain l ls where a: "split_nl a = l # ls"
      using split_nl_nonempty[of a] by (cases "split_nl a") auto
    show ?thesis
    proof (cases ls)
      case Nil
      with Cons a False show ?thesis by simp
    next
      case (Cons l2 ls2)
      with Cons.IH a False show ?thesis by simp
    qed
  qed
qed

lemma split_nl_no_NL: "NL \<notin> set l \<Longrightarrow> split_nl l = [l]"
  by (induction l) auto

lemma split_nl_line: "NL \<notin> set l \<Longrightarrow> split_nl (l @ NL # r) = l # split_nl r"
  by (induction l) auto

lemma last_split_nl: "NL \<notin> set (last (split_nl s))"
proof (induction s)
  case Nil
  then show ?case by simp
next
  case (Cons c s)
  then show ?case
    using split_nl_nonempty[of s] by (cases "split_nl s") (auto split: list.splits)
qed

lemma parseTelemetry_now:
  "map_option telemetry_fields (parseTelemetry now m) =
   map_option telemetry_fields (parseTelemetry now' m)"
  by (simp add: parseTelemetry_def telemetry_fields_def Let_def split: option.splits prod.splits)

lemma fields_line:
  "map telemetry_fields (case parseTelemetry now l of None \<Rightarrow> [] | Some t \<Rightarrow> [t]) = line_fields l"
  using parseTelemetry_now[of now l 0]
  by (cases "parseTelemetry now l"; cases "parseTelemetry 0 l") (auto simp: line_fields_def)

lemma feed_loop_fields_from:
  "map telemetry_fields (feed_loop clock lines i frames) =
     map telemetry_fields frames @ concat (map line_fields (drop i (butlast lines)))"
proof (induction clock lines i frames rule: feed_loop.induct)
  case (1 clock lines i frames)
  show ?case
  proof (cases "i < length lines - 1")
    case False
    then show ?thesis by (subst feed_loop.simps) simp
  next
    case True
    then have d: "drop i (butlast lines) = lines ! i # drop (Suc i) (butlast lines)"
      using Cons_nth_drop_Suc[of i "butlast lines"] by (simp add: nth_butlast)
    show ?thesis
    proof (cases "parseTelemetry (clock i) (lines ! i)")
      case None
      then have "line_fields (lines ! i) = []"
        using fields_line[of "clock i" "lines ! i"] by simp
      moreover have "feed_loop clock lines i frames = feed_loop clock lines (i + 1) frames"
        using True None by (subst feed_loop.simps) simp
      ultimately show ?thesis
        using "1.IH"(1)[OF True None] by (simp add: d)
    next
      case (Some t)
      then have "line_fields (lines ! i) = [telemetry_fields t]"
        using fields_line[of "clock i" "lines ! i"] by simp
      moreover have "feed_loop clock lines i frames = feed_loop clock lines (i + 1) (frames @ [t])"
        using True Some by (subst feed_loop.simps) simp
      ultimately show ?thesis
        using "1.IH"(2)[OF True Some] by (simp add: d)
    qed
  qed
qed

lemma feed_loop_fields:
  "map telemetry_fields (feed_loop clock lines 0 []) = concat (map line_fields (butlast lines))"
  by (simp add: feed_loop_fields_from)

lemma feed_Str:
  "map telemetry_fields (fst (feed decode clock p (Str s))) =
     concat (map line_fields (butlast (split_nl (buffer p @ s))))"
  "snd (feed decode clock p (Str s)) = p\<lparr>buffer := last (split_nl (buffer p @ s))\<rparr>"
  by (simp_all add: feed_def Let_def feed_loop_fields)

lemma feed_chunks_eq:
  assumes "NL \<notin> set (buffer p)"
  shows "map telemetry_fields (fst (feed_chunks decode p cs)) =
           concat (map line_fields (butlast (split_nl (buffer p @ concat (map snd cs))))) \<and>
         snd (feed_chunks decode p cs) =
           p\<lparr>buffer := last (split_nl (buffer p @ concat (map snd cs)))\<rparr>"
  using assms
proof (induction cs arbitrary: p)
  case Nil
  then show ?case by (simp add: split_nl_no_NL)
next
  case (Cons c cs)
  obtain clock chunk where c: "c = (clock, chunk)" by (cases c)
  let ?p' = "snd (feed decode clock p (Str chunk))"
  have b: "buffer ?p' = last (split_nl (buffer p @ chunk))"
    by (simp add: feed_Str)
  then have "NL \<notin> set (buffer ?p')"
    by (simp add: last_split_nl)
  note IH = Cons.IH[OF this]
  have sp: "split_nl (buffer p @ chunk @ concat (map snd cs)) =
      butlast (split_nl (buffer p @ chunk)) @
      split_nl (buffer ?p' @ concat (map snd cs))"
    using split_nl_append[of "buffer p @ chunk" "concat (map snd cs)"] by (simp add: b)
  show ?case
    using IH split_nl_nonempty[of "buffer ?p' @ concat (map snd cs)"]
    by (simp add: c sp split_beta feed_Str butlast_append)
qed

section \<open>Evaluation on concrete lines\<close>

lemmas eval_defs = js_def NL_def telemetry_match_def telemetry_regex_def lit_def lit_ci_def
  ascii_upper_def is_space_def is_word_def is_digit_def is_digit_or_dot_def capture_def
  parseTelemetry_def trim_def parseFloat_def parseInt_def digits_val_def Let_def

section \<open>The stream decoder\<close>

text \<open>
  C1. Fragmentation invariance: for every partition of a string into chunks, which may be
  empty, feeding the chunks in order to a fresh parser and concatenating the returned
  frames gives the same frames, equal in status, speed, rpm, anomalyPercentage and
  anomalyDetected and in the same order, and the same parser with the same pending
  buffer, as feeding the whole string to a fresh parser in one call. The time stamps
  depend on the clock of each call and are not compared.
\<close>

theorem fragmentation_invariance:
  "map telemetry_fields (fst (feed_chunks decode new_parser chunks)) =
     map telemetry_fields (fst (feed decode clock new_parser (Str (concat (map snd chunks))))) \<and>
   snd (feed_chunks decode new_parser chunks) =
     snd (feed decode clock new_parser (Str (concat (map snd chunks))))"
proof -
  have "NL \<notin> set (buffer new_parser)"
    by (simp add: new_parser_def)
  from feed_chunks_eq[OF this, of decode chunks] show ?thesis
    by (simp add: feed_Str)
qed

text \<open>
  C8. Reset discards the carried-over state: after \<open>reset\<close> the pending buffer is
  empty, and every \<open>feed\<close>, and every sequence of \<open>feed\<close> calls, gives from the reset
  parser the frames and the parser that it gives from a fresh parser.
\<close>

theorem reset_discards_buffer:
  fixes p :: TelemetryStreamParser
  shows "buffer (reset p) = [] \<and>
   feed decode clock (reset p) data = feed decode clock new_parser data \<and>
   feed_chunks decode (reset p) chunks = feed_chunks decode new_parser chunks"
proof -
  have "reset p = new_parser"
    by (cases p) (simp add: reset_def new_parser_def)
  then show ?thesis
    by (simp add: new_parser_def)
qed

text \<open>
  C2. The scenario of two chunks: from a fresh parser, the first chunk, which has no line
  feed, returns no frame and stays in the buffer; the second chunk completes the line and
  returns exactly one frame with status Running, speed 15.50, anomalyPercentage 5 and
  anomalyDetected false, and the segment after the line feed is the new buffer.
\<close>

theorem feed_scenario:
  "feed decode clock new_parser (Str (js ''Motor: Running  Speed: 15.'')) =
     ([], \<lparr>buffer = js ''Motor: Running  Speed: 15.''\<rparr>) \<and>
   feed decode clock' (snd (feed decode clock new_parser (Str (js ''Motor: Running  Speed: 15.''))))
       (Str (js ''50 Anomaly: 5%'' @ [NL] @ js ''Motor: Stop'')) =
     ([\<lparr>status = js ''Running'', speed = 15.5, rpm = (15.5 * 60) / (2 * pi),
        anomalyPercentage = 5, anomalyDetected = False, timestamp = clock' 0\<rparr>],
      \<lparr>buffer = js ''Motor: Stop''\<rparr>)"
  by (simp add: feed_def new_parser_def feed_loop.simps eval_defs)

lemma feed_one_line:
  assumes "NL \<notin> set l"
  shows "feed decode clock new_parser (Str (l @ [NL])) = (frames_of_line (clock 0) l, new_parser)"
  using assms
  by (simp add: feed_def new_parser_def split_nl_line feed_loop.simps frames_of_line_def
      split: option.splits)

lemma feed_two_lines:
  assumes "NL \<notin> set l1" and "NL \<notin> set l2"
  shows "feed decode clock new_parser (Str (l1 @ [NL] @ l2 @ [NL])) =
    (frames_of_line (clock 0) l1 @ frames_of_line (clock 1) l2, new_parser)"
  using assms
  by (simp add: feed_def new_parser_def split_nl_line feed_loop.simps frames_of_line_def
      split: option.splits)

lemma rejection_set_dropped:
  assumes "bad \<in> set rejection_set"
  shows "parseTelemetry now bad = None" and "NL \<notin> set bad"
proof -
  from assms consider
      "bad = js ''Motor: Walking Speed: 1.0 Anomaly: 0%''"
    | "bad = js ''Motor: Running Speed: 30.0 Anomaly: 0%''"
    | "bad = js ''Motor: Running Speed: 1.0 Anomaly: 150%''"
    | "bad = js ''garbage''"
    by (auto simp: rejection_set_def)
  then show "parseTelemetry now bad = None"
    by cases (simp_all add: eval_defs)
  from assms show "NL \<notin> set bad"
    by (auto simp: rejection_set_def js_def NL_def)
qed

text \<open>
  C5. Invalid lines are dropped and do not poison the stream: each of the four lines of the
  rejection set gives no record, \<open>feed\<close> returns normally with no frame for it, and a
  line that follows it, in the same chunk or in the next one, gives exactly the frames
  that \<open>parseTelemetry\<close> gives for that line; the buffer is empty afterwards.
\<close>

theorem invalid_lines_dropped:
  assumes "bad \<in> set rejection_set" and "NL \<notin> set good"
  shows "parseTelemetry now bad = None \<and>
    feed decode clock new_parser (Str (bad @ [NL])) = ([], new_parser) \<and>
    feed decode clock new_parser (Str (bad @ [NL] @ good @ [NL])) =
      (frames_of_line (clock 1) good, new_parser) \<and>
    feed_chunks decode new_parser [(clock, bad @ [NL]), (clock', good @ [NL])] =
      (frames_of_line (clock' 0) good, new_parser)"
proof -
  note bad = rejection_set_dropped[OF assms(1)]
  have "frames_of_line t bad = []" for t
    by (simp add: frames_of_line_def bad(1))
  then show ?thesis
    using feed_one_line[OF bad(2), of decode clock]
      feed_two_lines[OF bad(2) assms(2), of decode clock]
      feed_one_line[OF assms(2), of decode clock']
    by (simp add: bad(1))
qed

theorem invalid_lines_dropped_witness:
  "js ''garbage'' \<in> set rejection_set \<and>
   NL \<notin> set (js ''Motor: Running  Speed: 15.50 Anomaly: 5%'') \<and>
   feed (\<lambda>b. []) (\<lambda>i. 0) new_parser
     (Str (js ''garbage'' @ [NL] @ js ''Motor: Running  Speed: 15.50 Anomaly: 5%'' @ [NL])) =
     ([\<lparr>status = js ''Running'', speed = 15.5, rpm = (15.5 * 60) / (2 * pi),
        anomalyPercentage = 5, anomalyDetected = False, timestamp = 0\<rparr>], new_parser)"
  using invalid_lines_dropped[of "js ''garbage''" "js ''Motor: Running  Speed: 15.50 Anomaly: 5%''"
      0 "\<lambda>b. []" "\<lambda>i. 0" "\<lambda>i. 0"]
  by (simp add: rejection_set_def frames_of_line_def eval_defs)

section \<open>The line validator\<close>

lemma parseTelemetry_line:
  assumes wf: "well_formed p"
    and sp: "parseFloat (speed_tok p) = Some sp" "sp \<le> 25"
    and a: "parseInt (percent_tok p) = Some a" "a \<le> 100"
  shows "parseTelemetry now (render p) =
    (if status_tok p \<in> {js ''Running'', js ''Stop'', js ''Error''}
     then Some (record_of now (status_tok p) sp a) else None)"
proof -
  have "0 \<le> sp"
    using sp(1) by (rule parseFloat_nonneg)
  moreover have "0 \<le> a"
    using wf a(1) parseInt_digits[of "percent_tok p"] by (auto simp: well_formed_def)
  ultimately show ?thesis
    using parseTelemetry_well_formed[OF wf, of "[]" "[]" sp a now] sp a by simp
qed

lemma parseTelemetry_status:
  "parseTelemetry now message = Some t \<Longrightarrow> status t \<in> {js ''Running'', js ''Stop'', js ''Error''}"
  by (auto simp: parseTelemetry_def Let_def split: option.splits prod.splits if_splits)

lemma parseTelemetry_record:
  assumes "parseTelemetry now message = Some t"
  shows "anomalyDetected t = (anomalyPercentage t > 50)"
    and "rpm t = (speed t * 60) / (2 * pi)"
    and "0 \<le> speed t \<and> speed t \<le> 25"
    and "0 \<le> anomalyPercentage t \<and> anomalyPercentage t \<le> 100"
  using assms
  by (auto simp: parseTelemetry_def Let_def split: option.splits prod.splits if_splits)

text \<open>
  C3, as amended. The labels \<open>Motor:\<close>, \<open>Speed:\<close> and \<open>Anomaly:\<close> are matched in any letter
  case, but the status keyword is compared exactly: a complete line in the wire format
  whose speed and percent tokens are valid is accepted if and only if its status token is
  \<open>Running\<close>, \<open>Stop\<close> or \<open>Error\<close> in this very spelling.
\<close>

theorem status_keyword_exact_case:
  assumes "well_formed p"
    and "parseFloat (speed_tok p) = Some sp" and "sp \<le> 25"
    and "parseInt (percent_tok p) = Some a" and "a \<le> 100"
  shows "(parseTelemetry now (render p) \<noteq> None) =
    (status_tok p = js ''Running'' \<or> status_tok p = js ''Stop'' \<or> status_tok p = js ''Error'')"
  using parseTelemetry_line[OF assms, of now] by auto

text \<open>
  Two instances with labels in upper and in lower case: the status token \<open>running\<close> makes
  the line invalid, the status token \<open>Running\<close> gives a record.
\<close>

theorem status_keyword_exact_case_witness:
  "well_formed \<lparr>motor_label = js ''MOTOR:'', gap0 = js '' '', status_tok = js ''running'',
      gap1 = js ''  '', speed_label = js ''speed:'', gap2 = js '' '', speed_tok = js ''15.50'',
      gap3 = js '' '', anomaly_label = js ''Anomaly:'', gap4 = js '' '', percent_tok = js ''5''\<rparr> \<and>
   parseFloat (js ''15.50'') = Some 15.5 \<and> (15.5::real) \<le> 25 \<and>
   parseInt (js ''5'') = Some 5 \<and> (5::int) \<le> 100 \<and>
   parseTelemetry 0 (js ''MOTOR: running  speed: 15.50 Anomaly: 5%'') = None \<and>
   well_formed \<lparr>motor_label = js ''MOTOR:'', gap0 = js '' '', status_tok = js ''Running'',
      gap1 = js ''  '', speed_label = js ''speed:'', gap2 = js '' '', speed_tok = js ''15.50'',
      gap3 = js '' '', anomaly_label = js ''Anomaly:'', gap4 = js '' '', percent_tok = js ''5''\<rparr> \<and>
   parseTelemetry 0 (js ''MOTOR: Running  speed: 15.50 Anomaly: 5%'') \<noteq> None"
  using status_keyword_exact_case[of "\<lparr>motor_label = js ''MOTOR:'', gap0 = js '' '',
      status_tok = js ''running'',
      gap1 = js ''  '', speed_label = js ''speed:'', gap2 = js '' '', speed_tok = js ''15.50'',
      gap3 = js '' '', anomaly_label = js ''Anomaly:'', gap4 = js '' '', percent_tok = js ''5''\<rparr>"
      "15.5" 5 0]
    status_keyword_exact_case[of "\<lparr>motor_label = js ''MOTOR:'', gap0 = js '' '',
      status_tok = js ''Running'',
      gap1 = js ''  '', speed_label = js ''speed:'', gap2 = js '' '', speed_tok = js ''15.50'',
      gap3 = js '' '', anomaly_label = js ''Anomaly:'', gap4 = js '' '', percent_tok = js ''5''\<rparr>"
      "15.5" 5 0]
  by (simp add: well_formed_def render_def eval_defs)

text \<open>
  C3 as stated fails: the lines with the status tokens \<open>running\<close>, \<open>STOP\<close> and \<open>error\<close>
  and valid speed and percent tokens give no record.
\<close>

theorem status_keyword_case_counterexample:
  "parseTelemetry 0 (js ''Motor: running  Speed: 15.50 Anomaly: 5%'') = None \<and>
   parseTelemetry 0 (js ''Motor: STOP  Speed: 0.00 Anomaly: 0%'') = None \<and>
   parseTelemetry 0 (js ''Motor: error  Speed: 0.00 Anomaly: 95%'') = None"
  by (simp add: eval_defs)

text \<open>
  C4, as amended. The status values are exactly \<open>Running\<close>, \<open>Stop\<close> and \<open>Error\<close>: every
  record that \<open>parseTelemetry\<close> returns has one of them as its status; a complete line in
  the wire format with valid speed and percent tokens gives a record with its status token
  as status when the token is one of the three, and no record for every other token.
\<close>

theorem status_values_Running_Stop_Error:
  "(parseTelemetry now message = Some t \<longrightarrow>
      status t = js ''Running'' \<or> status t = js ''Stop'' \<or> status t = js ''Error'') \<and>
   (well_formed p \<and> parseFloat (speed_tok p) = Some sp \<and> sp \<le> 25 \<and>
    parseInt (percent_tok p) = Some a \<and> a \<le> 100 \<longrightarrow>
      (if status_tok p = js ''Running'' \<or> status_tok p = js ''Stop'' \<or>
          status_tok p = js ''Error''
       then \<exists>r. parseTelemetry now (render p) = Some r \<and> status r = status_tok p
       else parseTelemetry now (render p) = None))"
proof (intro conjI impI)
  assume "parseTelemetry now message = Some t"
  then show "status t = js ''Running'' \<or> status t = js ''Stop'' \<or> status t = js ''Error''"
    using parseTelemetry_status by blast
next
  assume h: "well_formed p \<and> parseFloat (speed_tok p) = Some sp \<and> sp \<le> 25 \<and>
    parseInt (percent_tok p) = Some a \<and> a \<le> 100"
  then have "parseTelemetry now (render p) =
    (if status_tok p \<in> {js ''Running'', js ''Stop'', js ''Error''}
     then Some (record_of now (status_tok p) sp a) else None)"
    by (intro parseTelemetry_line) auto
  then show "if status_tok p = js ''Running'' \<or> status_tok p = js ''Stop'' \<or>
          status_tok p = js ''Error''
       then \<exists>r. parseTelemetry now (render p) = Some r \<and> status r = status_tok p
       else parseTelemetry now (render p) = None"
    by (auto simp: record_of_def)
qed

text \<open>An instance: the line of a stopped motor.\<close>

theorem status_values_Running_Stop_Error_witness:
  "parseTelemetry 0 (js ''Motor: Stop  Speed: 0.00 Anomaly: 0%'') =
     Some \<lparr>status = js ''Stop'', speed = 0, rpm = 0, anomalyPercentage = 0,
       anomalyDetected = False, timestamp = 0\<rparr> \<and>
   well_formed \<lparr>motor_label = js ''Motor:'', gap0 = js '' '', status_tok = js ''Stop'',
      gap1 = js ''  '', speed_label = js ''Speed:'', gap2 = js '' '', speed_tok = js ''0.00'',
      gap3 = js '' '', anomaly_label = js ''Anomaly:'', gap4 = js '' '', percent_tok = js ''0''\<rparr> \<and>
   parseFloat (js ''0.00'') = Some 0 \<and> (0::real) \<le> 25 \<and>
   parseInt (js ''0'') = Some 0 \<and> (0::int) \<le> 100 \<and>
   (\<exists>r. parseTelemetry 0 (js ''Motor: Stop  Speed: 0.00 Anomaly: 0%'') = Some r \<and>
      status r = js ''Stop'')"
  using status_values_Running_Stop_Error[of 0 "js ''Motor: Stop  Speed: 0.00 Anomaly: 0%''"
      "\<lparr>status = js ''Stop'', speed = 0, rpm = 0, anomalyPercentage = 0,
       anomalyDetected = False, timestamp = 0\<rparr>"
      "\<lparr>motor_label = js ''Motor:'', gap0 = js '' '', status_tok = js ''Stop'',
      gap1 = js ''  '', speed_label = js ''Speed:'', gap2 = js '' '', speed_tok = js ''0.00'',
      gap3 = js '' '', anomaly_label = js ''Anomaly:'', gap4 = js '' '', percent_tok = js ''0''\<rparr>"
      0 0]
  by (simp add: well_formed_def render_def eval_defs)

text \<open>
  C4 as stated fails: the status token \<open>Stopped\<close> gives no record, and the token \<open>Stop\<close>,
  which is not in the stated set, gives one.
\<close>

theorem status_values_counterexample:
  "parseTelemetry 0 (js ''Motor: Stopped  Speed: 0.00 Anomaly: 0%'') = None \<and>
   parseTelemetry 0 (js ''Motor: Stop  Speed: 0.00 Anomaly: 0%'') =
     Some \<lparr>status = js ''Stop'', speed = 0, rpm = 0, anomalyPercentage = 0,
       anomalyDetected = False, timestamp = 0\<rparr>"
  by (simp add: eval_defs)

text \<open>
  C6. The anomaly threshold: in every record that \<open>parseTelemetry\<close> returns,
  \<open>anomalyDetected\<close> holds if and only if \<open>anomalyPercentage\<close> is greater than 50. In
  particular a valid line with the percent token 50 gives a record with anomalyDetected
  false, and one with the percent token 51 a record with anomalyDetected true.
\<close>

theorem anomaly_threshold:
  "(parseTelemetry now message = Some t \<longrightarrow>
      anomalyDetected t = (anomalyPercentage t > 50)) \<and>
   (well_formed p \<and>
    (status_tok p = js ''Running'' \<or> status_tok p = js ''Stop'' \<or> status_tok p = js ''Error'') \<and>
    parseFloat (speed_tok p) = Some sp \<and> sp \<le> 25 \<longrightarrow>
      (percent_tok p = js ''50'' \<longrightarrow>
         parseTelemetry now (render p) = Some (record_of now (status_tok p) sp 50) \<and>
         \<not> anomalyDetected (record_of now (status_tok p) sp 50)) \<and>
      (percent_tok p = js ''51'' \<longrightarrow>
         parseTelemetry now (render p) = Some (record_of now (status_tok p) sp 51) \<and>
         anomalyDetected (record_of now (status_tok p) sp 51)))"
proof (intro conjI impI)
  assume "parseTelemetry now message = Some t"
  then show "anomalyDetected t = (anomalyPercentage t > 50)"
    by (rule parseTelemetry_record)
next
  assume h: "well_formed p \<and>
    (status_tok p = js ''Running'' \<or> status_tok p = js ''Stop'' \<or> status_tok p = js ''Error'') \<and>
    parseFloat (speed_tok p) = Some sp \<and> sp \<le> 25"
    and tok: "percent_tok p = js ''50''"
  have "parseInt (js ''50'') = Some 50"
    by (simp add: eval_defs)
  with h tok show "parseTelemetry now (render p) = Some (record_of now (status_tok p) sp 50)"
    using parseTelemetry_line[of p sp 50 now] by auto
next
  show "\<not> anomalyDetected (record_of now (status_tok p) sp 50)"
    by (simp add: record_of_def)
next
  assume h: "well_formed p \<and>
    (status_tok p = js ''Running'' \<or> status_tok p = js ''Stop'' \<or> status_tok p = js ''Error'') \<and>
    parseFloat (speed_tok p) = Some sp \<and> sp \<le> 25"
    and tok: "percent_tok p = js ''51''"
  have "parseInt (js ''51'') = Some 51"
    by (simp add: eval_defs)
  with h tok show "parseTelemetry now (render p) = Some (record_of now (status_tok p) sp 51)"
    using parseTelemetry_line[of p sp 51 now] by auto
next
  show "anomalyDetected (record_of now (status_tok p) sp 51)"
    by (simp add: record_of_def)
qed

text \<open>Two instances: the same line with the percent tokens 50 and 51.\<close>

theorem anomaly_threshold_witness:
  "parseTelemetry 0 (js ''Motor: Running  Speed: 15.50 Anomaly: 50%'') =
     Some \<lparr>status = js ''Running'', speed = 15.5, rpm = (15.5 * 60) / (2 * pi),
       anomalyPercentage = 50, anomalyDetected = False, timestamp = 0\<rparr> \<and>
   well_formed \<lparr>motor_label = js ''Motor:'', gap0 = js '' '', status_tok = js ''Running'',
      gap1 = js ''  '', speed_label = js ''Speed:'', gap2 = js '' '', speed_tok = js ''15.50'',
      gap3 = js '' '', anomaly_label = js ''Anomaly:'', gap4 = js '' '', percent_tok = js ''50''\<rparr> \<and>
   parseFloat (js ''15.50'') = Some 15.5 \<and> (15.5::real) \<le> 25 \<and>
   parseTelemetry 0 (js ''Motor: Running  Speed: 15.50 Anomaly: 51%'') =
     Some \<lparr>status = js ''Running'', speed = 15.5, rpm = (15.5 * 60) / (2 * pi),
       anomalyPercentage = 51, anomalyDetected = True, timestamp = 0\<rparr> \<and>
   well_formed \<lparr>motor_label = js ''Motor:'', gap0 = js '' '', status_tok = js ''Running'',
      gap1 = js ''  '', speed_label = js ''Speed:'', gap2 = js '' '', speed_tok = js ''15.50'',
      gap3 = js '' '', anomaly_label = js ''Anomaly:'', gap4 = js '' '', percent_tok = js ''51''\<rparr>"
  using anomaly_threshold[of 0 "js ''Motor: Running  Speed: 15.50 Anomaly: 50%''"
      "\<lparr>status = js ''Running'', speed = 15.5, rpm = (15.5 * 60) / (2 * pi),
       anomalyPercentage = 50, anomalyDetected = False, timestamp = 0\<rparr>"
      "\<lparr>motor_label = js ''Motor:'', gap0 = js '' '', status_tok = js ''Running'',
      gap1 = js ''  '', speed_label = js ''Speed:'', gap2 = js '' '', speed_tok = js ''15.50'',
      gap3 = js '' '', anomaly_label = js ''Anomaly:'', gap4 = js '' '', percent_tok = js ''50''\<rparr>"
      "15.5"]
    anomaly_threshold[of 0 "js ''Motor: Running  Speed: 15.50 Anomaly: 51%''"
      "\<lparr>status = js ''Running'', speed = 15.5, rpm = (15.5 * 60) / (2 * pi),
       anomalyPercentage = 51, anomalyDetected = True, timestamp = 0\<rparr>"
      "\<lparr>motor_label = js ''Motor:'', gap0 = js '' '', status_tok = js ''Running'',
      gap1 = js ''  '', speed_label = js ''Speed:'', gap2 = js '' '', speed_tok = js ''15.50'',
      gap3 = js '' '', anomaly_label = js ''Anomaly:'', gap4 = js '' '', percent_tok = js ''51''\<rparr>"
      "15.5"]
  by (simp add: well_formed_def render_def record_of_def eval_defs)

text \<open>
  C7. The derivation of the rpm: in every record that \<open>parseTelemetry\<close> returns, \<open>rpm\<close> is
  \<open>speed * 60 / (2 * pi)\<close>, over the numbers of the model; a record with speed 0 has
  rpm 0, as the line with the speed token \<open>0.00\<close> shows.
\<close>

theorem rpm_derivation:
  "(parseTelemetry now message = Some t \<longrightarrow> rpm t = (speed t * 60) / (2 * pi)) \<and>
   (parseTelemetry now message = Some t \<and> speed t = 0 \<longrightarrow> rpm t = 0) \<and>
   map_option (\<lambda>r. (speed r, rpm r))
     (parseTelemetry now (js ''Motor: Stop  Speed: 0.00 Anomaly: 0%'')) = Some (0, 0)"
proof (intro conjI impI)
  assume "parseTelemetry now message = Some t"
  then show "rpm t = (speed t * 60) / (2 * pi)"
    by (rule parseTelemetry_record)
next
  assume "parseTelemetry now message = Some t \<and> speed t = 0"
  then show "rpm t = 0"
    using parseTelemetry_record(2)[of now message t] by simp
next
  show "map_option (\<lambda>r. (speed r, rpm r))
     (parseTelemetry now (js ''Motor: Stop  Speed: 0.00 Anomaly: 0%'')) = Some (0, 0)"
    by (simp add: eval_defs)
qed

text \<open>Two instances: 10 rad/s is 600 / (2 * pi) rpm, and 0 rad/s is 0 rpm.\<close>

theorem rpm_derivation_witness:
  "parseTelemetry 0 (js ''Motor: Running  Speed: 10.0 Anomaly: 5%'') =
     Some \<lparr>status = js ''Running'', speed = 10, rpm = 600 / (2 * pi),
       anomalyPercentage = 5, anomalyDetected = False, timestamp = 0\<rparr> \<and>
   rpm \<lparr>status = js ''Running'', speed = 10, rpm = 600 / (2 * pi),
       anomalyPercentage = 5, anomalyDetected = False, timestamp = 0\<rparr> = (10 * 60) / (2 * pi) \<and>
   parseTelemetry 0 (js ''Motor: Stop  Speed: 0.00 Anomaly: 0%'') =
     Some \<lparr>status = js ''Stop'', speed = 0, rpm = 0,
       anomalyPercentage = 0, anomalyDetected = False, timestamp = 0\<rparr>"
  using rpm_derivation[of 0 "js ''Motor: Running  Speed: 10.0 Anomaly: 5%''"
      "\<lparr>status = js ''Running'', speed = 10, rpm = 600 / (2 * pi),
       anomalyPercentage = 5, anomalyDetected = False, timestamp = 0\<rparr>"]
    rpm_derivation[of 0 "js ''Motor: Stop  Speed: 0.00 Anomaly: 0%''"
      "\<lparr>status = js ''Stop'', speed = 0, rpm = 0,
       anomalyPercentage = 0, anomalyDetected = False, timestamp = 0\<rparr>"]
  by (simp add: eval_defs)

text \<open>
  C10, as amended. The pattern is not anchored and the leftmost match decides: a line that
  contains a valid telemetry line in the wire format, with any text behind the percent sign
  and with text in front of \<open>Motor:\<close> in which no match of the pattern starts, is accepted,
  and the record is built from the tokens of the contained line.
\<close>

theorem unanchored_leftmost_match:
  assumes "well_formed p"
    and "status_tok p = js ''Running'' \<or> status_tok p = js ''Stop'' \<or> status_tok p = js ''Error''"
    and "parseFloat (speed_tok p) = Some sp" and "sp \<le> 25"
    and "parseInt (percent_tok p) = Some a" and "a \<le> 100"
    and "no_match_before telemetry_regex pre (render p @ suf)"
  shows "parseTelemetry now (pre @ render p @ suf) = Some (record_of now (status_tok p) sp a)"
proof -
  have "0 \<le> sp"
    using assms(3) by (rule parseFloat_nonneg)
  moreover have "0 \<le> a"
    using assms(1,5) parseInt_digits[of "percent_tok p"] by (auto simp: well_formed_def)
  ultimately show ?thesis
    using parseTelemetry_well_formed[OF assms(1) assms(7), of sp a now] assms(2-6) by auto
qed

text \<open>An instance: text on both sides of a valid line.\<close>

theorem unanchored_leftmost_match_witness:
  "well_formed \<lparr>motor_label = js ''Motor:'', gap0 = js '' '', status_tok = js ''Running'',
      gap1 = js '' '', speed_label = js ''Speed:'', gap2 = js '' '', speed_tok = js ''1.0'',
      gap3 = js '' '', anomaly_label = js ''Anomaly:'', gap4 = js '' '', percent_tok = js ''5''\<rparr> \<and>
   parseFloat (js ''1.0'') = Some 1 \<and> (1::real) \<le> 25 \<and>
   parseInt (js ''5'') = Some 5 \<and> (5::int) \<le> 100 \<and>
   no_match_before telemetry_regex (js ''xx '') (js ''Motor: Running Speed: 1.0 Anomaly: 5% yy'') \<and>
   parseTelemetry 0 (js ''xx Motor: Running Speed: 1.0 Anomaly: 5% yy'') =
     Some \<lparr>status = js ''Running'', speed = 1, rpm = 60 / (2 * pi), anomalyPercentage = 5,
       anomalyDetected = False, timestamp = 0\<rparr>"
  using unanchored_leftmost_match[of "\<lparr>motor_label = js ''Motor:'', gap0 = js '' '',
      status_tok = js ''Running'',
      gap1 = js '' '', speed_label = js ''Speed:'', gap2 = js '' '', speed_tok = js ''1.0'',
      gap3 = js '' '', anomaly_label = js ''Anomaly:'', gap4 = js '' '', percent_tok = js ''5''\<rparr>"
      1 5 "js ''xx ''" "js '' yy''" 0]
  by (simp add: well_formed_def render_def record_of_def eval_defs)

text \<open>
  C10 as stated fails: a valid line is accepted by itself, but not behind a text in which
  the pattern already matches with an unknown status.
\<close>

theorem unanchored_match_counterexample:
  "parseTelemetry 0 (js ''Motor: Running Speed: 1.0 Anomaly: 5%'') =
     Some \<lparr>status = js ''Running'', speed = 1, rpm = 60 / (2 * pi), anomalyPercentage = 5,
       anomalyDetected = False, timestamp = 0\<rparr> \<and>
   parseTelemetry 0
     (js ''Motor: Walking Speed: 1.0 Anomaly: 0% Motor: Running Speed: 1.0 Anomaly: 5%'') = None"
  by (simp add: eval_defs)

section \<open>Sending commands to the transport\<close>

text \<open>
  C9. Gating and framing of commands: when the characteristic is missing or the component
  is not connected, \<open>sendCommand\<close> sets the error to the text that the device is not
  connected and hands nothing to the transport; when it is connected, exactly one byte
  array is handed to \<open>writeValue\<close>, the encoding of the command followed by one line feed,
  which is the bytes of the command and then the byte of the line feed for an encoder that
  encodes the appended line feed so, as UTF-8 does; the error is left as it was when the
  write resolves and is set when the transport rejects the write.
\<close>

theorem command_gating_and_framing:
  "(characteristicRef st = None \<or> \<not> connected st \<longrightarrow>
      sendCommand encode writeValue now st command =
        (st\<lparr>error := Some (js ''Not connected to device'')\<rparr>, [])) \<and>
   (characteristicRef st = Some ch \<and> connected st \<longrightarrow>
      snd (sendCommand encode writeValue now st command) = [encode (command @ [NL])] \<and>
      (encode (command @ [NL]) = encode command @ [0x0A] \<longrightarrow>
         snd (sendCommand encode writeValue now st command) = [encode command @ [0x0A]]) \<and>
      (writeValue ch (encode (command @ [NL])) = Resolved \<longrightarrow>
         error (fst (sendCommand encode writeValue now st command)) = error st) \<and>
      (writeValue ch (encode (command @ [NL])) \<noteq> Resolved \<longrightarrow>
         error (fst (sendCommand encode writeValue now st command)) \<noteq> None))"
  by (auto simp: sendCommand_def addDebugMessage_def Let_def
      split: option.splits write_result.splits thrown.splits)

text \<open>
  Two instances with the encoder of ASCII text: the command \<open>M10\<close> when disconnected
  and when connected.
\<close>

theorem command_gating_and_framing_witness:
  "connected \<lparr>characteristicRef = None :: unit option, connected = False, error = None,
      debugMessages = [], debugMessageIdRef = 0\<rparr> = False \<and>
   sendCommand (map ucast) (\<lambda>c d. Resolved) 0
      \<lparr>characteristicRef = None :: unit option, connected = False, error = None,
        debugMessages = [], debugMessageIdRef = 0\<rparr> (js ''M10'') =
      (\<lparr>characteristicRef = None, connected = False,
         error = Some (js ''Not connected to device''),
         debugMessages = [], debugMessageIdRef = 0\<rparr>, []) \<and>
   map ucast (js ''M10'' @ [NL]) = (map ucast (js ''M10'') @ [0x0A] :: 8 word list) \<and>
   snd (sendCommand (map ucast) (\<lambda>c d. Resolved) 0
      \<lparr>characteristicRef = Some (), connected = True, error = None,
        debugMessages = [], debugMessageIdRef = 0\<rparr> (js ''M10'')) = [[0x4D, 0x31, 0x30, 0x0A]]"
  using command_gating_and_framing[where
      st = "\<lparr>characteristicRef = None :: unit option, connected = False, error = None,
        debugMessages = [], debugMessageIdRef = 0\<rparr>" and encode = "map ucast" and
      writeValue = "\<lambda>c d. Resolved" and now = 0 and command = "js ''M10''" and ch = "()"]
    command_gating_and_framing[where
      st = "\<lparr>characteristicRef = Some (), connected = True, error = None,
        debugMessages = [], debugMessageIdRef = 0\<rparr>" and encode = "map ucast" and
      writeValue = "\<lambda>c d. Resolved" and now = 0 and command = "js ''M10''" and ch = "()"]
  by (simp add: js_def NL_def)

end
